theory Spec2Isabelle
  imports Main "HOL-Library.AList"
begin

section \<open>PyEtcdConf: resolving services and configuration from an etcd tree\<close>

text \<open>
  A shallow embedding of \<^verbatim>\<open>etcd.py\<close>. The module reads two kinds of entries from an
  etcd v2 key space over HTTP (\<^verbatim>\<open>get_service\<close>, \<^verbatim>\<open>get_conf\<close>) and merges several of
  them into one dictionary (\<^verbatim>\<open>info\<close>), kept in the module-level dictionary
  \<^verbatim>\<open>_cached_result\<close>.

  Modelling decisions:
  \<^item> Python exceptions are values of \<open>py_error\<close>; a function that can raise returns
    \<open>py_error + 'a\<close> with \<open>Inl\<close> for the exception. Python's \<^verbatim>\<open>None\<close> result
    is \<open>None\<close> of an option type.
  \<^item> The decoded JSON of the store is typed as etcd v2 sends it: an envelope with an
    optional \<^verbatim>\<open>"node"\<close>, and nodes with the optional fields \<^verbatim>\<open>key\<close>, \<^verbatim>\<open>value\<close>
    (strings; the selector of the value is \<open>node_value\<close>), \<^verbatim>\<open>dir\<close> (a boolean) and
    \<^verbatim>\<open>nodes\<close> (a list of nodes). JSON of other types in these places is outside the
    model.
  \<^item> The store is a function from the requested URL to the response; the HTTP requests
    a call makes are returned as a list of URLs, in the order they are made.
  \<^item> Python dictionaries with string keys are association lists with pairwise distinct
    keys, built by assignment only (\<open>AList.update\<close>).
  \<^item> Strings are lists of 8-bit characters; \<^verbatim>\<open>int(s)\<close> is modelled for ASCII signs,
    digits and white space.
  \<^item> Names and aliases are strings, as the docstring of \<^verbatim>\<open>info\<close> prescribes; a request
    entry is a string, a tuple of strings of any length, or a value of another type.
\<close>

subsection \<open>Python values and exceptions\<close>

datatype py_error = KeyError | IndexError | ValueError | TypeError | ConnectionError

datatype pyval = PStr string | PInt int | PDict "(string \<times> pyval) list"

type_synonym dict = "(string \<times> pyval) list"

text \<open>\<^verbatim>\<open>s.split(sep)\<close> for a one-character separator: never the empty list.\<close>

fun py_split :: "char \<Rightarrow> string \<Rightarrow> string list" where
  "py_split sep [] = [[]]"
| "py_split sep (c # cs) =
     (if c = sep then [] # py_split sep cs
      else (case py_split sep cs of [] \<Rightarrow> [[c]] | w # ws \<Rightarrow> (c # w) # ws))"

text \<open>\<^verbatim>\<open>int(s)\<close> in base ten: white space around, one optional sign, at least one digit.\<close>

definition is_space :: "char \<Rightarrow> bool" where
  "is_space c = (c \<in> set [CHR '' '', CHR 0x09, CHR 0x0A, CHR 0x0B, CHR 0x0C, CHR 0x0D])"

definition strip :: "string \<Rightarrow> string" where
  "strip s = rev (dropWhile is_space (rev (dropWhile is_space s)))"

definition digit_value :: "char \<Rightarrow> int option" where
  "digit_value = map_of
     [(CHR ''0'', 0), (CHR ''1'', 1), (CHR ''2'', 2), (CHR ''3'', 3), (CHR ''4'', 4),
      (CHR ''5'', 5), (CHR ''6'', 6), (CHR ''7'', 7), (CHR ''8'', 8), (CHR ''9'', 9)]"

fun digits_value :: "string \<Rightarrow> int \<Rightarrow> int option" where
  "digits_value [] acc = Some acc"
| "digits_value (c # cs) acc =
     (case digit_value c of None \<Rightarrow> None | Some d \<Rightarrow> digits_value cs (10 * acc + d))"

definition py_int :: "string \<Rightarrow> int option" where
  "py_int s =
     (case strip s of
        [] \<Rightarrow> None
      | c # cs \<Rightarrow>
          if c = CHR ''-'' then (if cs = [] then None else map_option uminus (digits_value cs 0))
          else if c = CHR ''+'' then (if cs = [] then None else digits_value cs 0)
          else digits_value (c # cs) 0)"

text \<open>\<^verbatim>\<open>m.update(d)\<close> and \<^verbatim>\<open>dict(pairs)\<close>: assignments in order, a later one overwrites.\<close>

definition py_update :: "dict \<Rightarrow> dict \<Rightarrow> dict" where
  "py_update m d = fold (\<lambda>(k, v). AList.update k v) d m"

definition py_dict :: "(string \<times> pyval) list \<Rightarrow> dict" where
  "py_dict pairs = fold (\<lambda>(k, v). AList.update k v) pairs []"

text \<open>\<^verbatim>\<open>map(f, xs)\<close> under Python 2: the list is built at once, the first exception ends it.\<close>

fun py_map :: "('a \<Rightarrow> py_error + 'b) \<Rightarrow> 'a list \<Rightarrow> py_error + 'b list" where
  "py_map f [] = Inr []"
| "py_map f (x # xs) =
     (case f x of
        Inl e \<Rightarrow> Inl e
      | Inr y \<Rightarrow> (case py_map f xs of Inl e \<Rightarrow> Inl e | Inr ys \<Rightarrow> Inr (y # ys)))"

subsection \<open>The store\<close>

datatype node =
  Node (key: "string option") (node_value: "string option") (dir: "bool option")
    (nodes: "node list option")

text \<open>
  What \<^verbatim>\<open>requests.get(url).json()\<close> does: the request fails (an \<^verbatim>\<open>IOError\<close> of
  \<^verbatim>\<open>requests\<close>), the body is not JSON (\<^verbatim>\<open>ValueError\<close>), or the body decodes to an
  object that has a \<^verbatim>\<open>"node"\<close> or has none.
\<close>

datatype response = Unreachable | NotJson | Body "node option"

type_synonym url = string

type_synonym store = "url \<Rightarrow> response"

definition requests_get_json :: "store \<Rightarrow> url \<Rightarrow> py_error + node option" where
  "requests_get_json st u =
     (case st u of
        Unreachable \<Rightarrow> Inl ConnectionError
      | NotJson \<Rightarrow> Inl ValueError
      | Body data \<Rightarrow> Inr data)"

subsection \<open>\<^verbatim>\<open>get_service\<close>\<close>

definition get_service_entry :: "node \<Rightarrow> py_error + (string \<times> pyval)" where
  "get_service_entry entry =
     (case key entry of
        None \<Rightarrow> Inl KeyError
      | Some k \<Rightarrow>
          (case node_value entry of
             None \<Rightarrow> Inl KeyError
           | Some v \<Rightarrow>
               (case py_split (CHR '':'') v of
                  host # p # _ \<Rightarrow>
                    (case py_int p of
                       None \<Rightarrow> Inl ValueError
                     | Some port \<Rightarrow>
                         Inr (last (py_split (CHR ''/'') k),
                              PDict [(''host'', PStr host), (''port'', PInt port)]))
                | _ \<Rightarrow> Inl IndexError)))"

definition service_url :: "string \<Rightarrow> string \<Rightarrow> url" where
  "service_url etcd_url service_name = etcd_url @ ''/v2/keys/backends/'' @ service_name"

text \<open>The body of the \<^verbatim>\<open>try\<close> block of \<^verbatim>\<open>get_service\<close>.\<close>

definition get_service_try :: "store \<Rightarrow> url \<Rightarrow> string \<Rightarrow> py_error + dict" where
  "get_service_try st u alias =
     (case requests_get_json st u of
        Inl e \<Rightarrow> Inl e
      | Inr None \<Rightarrow> Inl KeyError
      | Inr (Some n) \<Rightarrow>
          (case nodes n of
             None \<Rightarrow> Inl KeyError
           | Some ns \<Rightarrow>
               (case py_map get_service_entry ns of
                  Inl e \<Rightarrow> Inl e
                | Inr pairs \<Rightarrow> Inr [(alias, PDict (py_dict pairs))])))"

definition get_service ::
  "store \<Rightarrow> string \<Rightarrow> string \<Rightarrow> string \<Rightarrow> (py_error + dict option) \<times> url list" where
  "get_service st etcd_url service_name alias =
     (let u = service_url etcd_url service_name in
      ((case get_service_try st u alias of
          Inr d \<Rightarrow> Inr (Some d)
        | Inl e \<Rightarrow> if e \<in> {KeyError, IndexError, ValueError} then Inr None else Inl e),
       [u]))"

subsection \<open>\<^verbatim>\<open>get_conf\<close>\<close>

definition truthy_str :: "string option \<Rightarrow> bool" where
  "truthy_str s = (case s of None \<Rightarrow> False | Some t \<Rightarrow> t \<noteq> [])"

text \<open>
  \<open>build_loop\<close> is the \<^verbatim>\<open>for\<close> loop of \<^verbatim>\<open>build_conf\<close> with its accumulator \<^verbatim>\<open>m\<close>;
  \<^verbatim>\<open>m.update(None)\<close> raises \<^verbatim>\<open>TypeError\<close>.
\<close>

fun build_conf :: "node \<Rightarrow> string option \<Rightarrow> py_error + dict option"
  and build_loop :: "node list \<Rightarrow> dict \<Rightarrow> py_error + dict" where
  "build_conf (Node k v d ns) node_alias =
     (case (if truthy_str node_alias then Inr (the node_alias)
            else (case k of None \<Rightarrow> Inl KeyError
                  | Some p \<Rightarrow> Inr (last (py_split (CHR ''/'') p)))) of
        Inl e \<Rightarrow> Inl e
      | Inr current_key \<Rightarrow>
          if d = Some True \<and> ns \<noteq> None \<and> the ns \<noteq> [] then
            (case build_loop (the ns) [] of
               Inl e \<Rightarrow> Inl e
             | Inr m \<Rightarrow> Inr (Some [(current_key, PDict m)]))
          else if v \<noteq> None then Inr (Some [(current_key, PStr (the v))])
          else Inr None)"
| "build_loop [] m = Inr m"
| "build_loop (n # rest) m =
     (case build_conf n None of
        Inl e \<Rightarrow> Inl e
      | Inr None \<Rightarrow> Inl TypeError
      | Inr (Some r) \<Rightarrow> build_loop rest (py_update m r))"

definition conf_url :: "string \<Rightarrow> string \<Rightarrow> url" where
  "conf_url etcd_url conf_name =
     etcd_url @ ''/v2/keys/project-conf/'' @ conf_name @ ''?recursive=true''"

definition get_conf ::
  "store \<Rightarrow> string \<Rightarrow> string \<Rightarrow> string \<Rightarrow> (py_error + dict option) \<times> url list" where
  "get_conf st etcd_url conf_name alias =
     (let u = conf_url etcd_url conf_name in
      ((case requests_get_json st u of
          Inl e \<Rightarrow> Inl e
        | Inr None \<Rightarrow> Inr None
        | Inr (Some n) \<Rightarrow> build_conf n (Some alias)),
       [u]))"

subsection \<open>\<^verbatim>\<open>_build_tuple\<close> and \<^verbatim>\<open>info\<close>\<close>

text \<open>
  An entry of \<^verbatim>\<open>service_names\<close> or \<^verbatim>\<open>conf_names\<close>: a string, a tuple, or a value
  of another type (\<^verbatim>\<open>None\<close>, an integer, a list).
\<close>

datatype request = RStr string | RTuple "string list" | RList "string list" | RInt int | RNone

fun build_tuple :: "request \<Rightarrow> py_error + (string \<times> string)" where
  "build_tuple (RTuple [name, alias]) = Inr (name, alias)"
| "build_tuple (RStr val) = Inr (val, val)"
| "build_tuple _ = Inl ValueError"

text \<open>
  A list comprehension \<^verbatim>\<open>[f(entry) for entry in entries]\<close> whose \<^verbatim>\<open>f\<close> makes
  requests and can raise: the entries are handled in order, and an exception ends the
  comprehension with the requests made so far.
\<close>

fun comprehension ::
  "('a \<Rightarrow> (py_error + 'b) \<times> url list) \<Rightarrow> 'a list \<Rightarrow> (py_error + 'b list) \<times> url list" where
  "comprehension f [] = (Inr [], [])"
| "comprehension f (entry # entries) =
     (case f entry of
        (Inl e, reqs) \<Rightarrow> (Inl e, reqs)
      | (Inr r, reqs) \<Rightarrow>
          (case comprehension f entries of
             (Inl e, reqs') \<Rightarrow> (Inl e, reqs @ reqs')
           | (Inr rs, reqs') \<Rightarrow> (Inr (r # rs), reqs @ reqs')))"

text \<open>\<^verbatim>\<open>get_service(etcd_url, *_build_tuple(entry))\<close>, and the same for \<^verbatim>\<open>get_conf\<close>.\<close>

definition service_of_entry ::
  "store \<Rightarrow> string \<Rightarrow> request \<Rightarrow> (py_error + dict option) \<times> url list" where
  "service_of_entry st etcd_url entry =
     (case build_tuple entry of
        Inl e \<Rightarrow> (Inl e, [])
      | Inr (name, alias) \<Rightarrow> get_service st etcd_url name alias)"

definition conf_of_entry ::
  "store \<Rightarrow> string \<Rightarrow> request \<Rightarrow> (py_error + dict option) \<times> url list" where
  "conf_of_entry st etcd_url entry =
     (case build_tuple entry of
        Inl e \<Rightarrow> (Inl e, [])
      | Inr (name, alias) \<Rightarrow> get_conf st etcd_url name alias)"

text \<open>\<^verbatim>\<open>filter(lambda v: v, results)\<close> keeps the results that are neither \<^verbatim>\<open>None\<close> nor empty.\<close>

definition truthy :: "dict option \<Rightarrow> bool" where
  "truthy r = (case r of None \<Rightarrow> False | Some d \<Rightarrow> d \<noteq> [])"

definition merge_dicts :: "dict list \<Rightarrow> dict" where
  "merge_dicts dict_args = fold (\<lambda>dictionary result_map. py_update result_map dictionary) dict_args []"

definition or_empty :: "'a list option \<Rightarrow> 'a list" where
  "or_empty names = (case names of None \<Rightarrow> [] | Some xs \<Rightarrow> xs)"

text \<open>
  Lines 129 to 132 of \<^verbatim>\<open>info\<close>: the services, then the configurations, then the
  merge of \<^verbatim>\<open>{'services': services}\<close> with the configurations.
\<close>

definition compute_result ::
  "store \<Rightarrow> string \<Rightarrow> request list option \<Rightarrow> request list option
     \<Rightarrow> (py_error + dict) \<times> url list" where
  "compute_result st etcd_url service_names conf_names =
     (case comprehension (service_of_entry st etcd_url) (or_empty service_names) of
        (Inl e, reqs) \<Rightarrow> (Inl e, reqs)
      | (Inr ss, reqs) \<Rightarrow>
          (case comprehension (conf_of_entry st etcd_url) (or_empty conf_names) of
             (Inl e, reqs') \<Rightarrow> (Inl e, reqs @ reqs')
           | (Inr cs, reqs') \<Rightarrow>
               (let services = merge_dicts (map the (filter truthy ss));
                    conf = merge_dicts (map the (filter truthy cs))
                in (Inr (merge_dicts [[(''services'', PDict services)], conf]), reqs @ reqs'))))"

text \<open>
  \<^verbatim>\<open>info\<close> takes the module-level dictionary \<^verbatim>\<open>_cached_result\<close> and returns it with
  the result and the requests made.
\<close>

type_synonym cache = "string \<rightharpoonup> dict"

definition info ::
  "store \<Rightarrow> string \<Rightarrow> request list option \<Rightarrow> request list option \<Rightarrow> string option
     \<Rightarrow> bool \<Rightarrow> cache \<Rightarrow> (py_error + dict) \<times> cache \<times> url list" where
  "info st etcd_url service_names conf_names cache_key force_refresh cached_result =
     (if \<not> force_refresh \<and> truthy_str cache_key \<and> the cache_key \<in> dom cached_result
      then (Inr (the (cached_result (the cache_key))), cached_result, [])
      else
        (case compute_result st etcd_url service_names conf_names of
           (Inl e, reqs) \<Rightarrow> (Inl e, cached_result, reqs)
         | (Inr result, reqs) \<Rightarrow>
             (Inr result,
              if truthy_str cache_key then cached_result(the cache_key \<mapsto> result)
              else cached_result,
              reqs)))"

subsection \<open>The words of the specification\<close>

text \<open>
  The predicates and functions below are not part of the program: they say, in the terms
  of the specification, which inputs a property is about and what it promises.
\<close>

text \<open>
  A child of a service directory, as the specification reads it: the replica id is the
  last path segment of the key, the host is what stands before the first colon of the
  value, the port is the second colon-separated segment read as an integer.
\<close>

definition replica_id :: "node \<Rightarrow> string" where
  "replica_id entry = last (py_split (CHR ''/'') (the (key entry)))"

definition host_of :: "node \<Rightarrow> string" where
  "host_of entry = takeWhile (\<lambda>c. c \<noteq> CHR '':'') (the (node_value entry))"

definition port_of :: "node \<Rightarrow> int option" where
  "port_of entry = py_int (py_split (CHR '':'') (the (node_value entry)) ! 1)"

definition replica_entry :: "node \<Rightarrow> string \<times> pyval" where
  "replica_entry entry =
     (replica_id entry,
      PDict [(''host'', PStr (host_of entry)), (''port'', PInt (the (port_of entry)))])"

definition well_formed_leaf :: "node \<Rightarrow> bool" where
  "well_formed_leaf entry =
     (key entry \<noteq> None \<and> node_value entry \<noteq> None \<and> CHR '':'' \<in> set (the (node_value entry)) \<and>
      port_of entry \<noteq> None)"

text \<open>
  A leaf that misses a field, whose value has no colon, or whose second segment is not
  an integer.
\<close>

definition malformed_leaf :: "node \<Rightarrow> bool" where
  "malformed_leaf entry =
     (key entry = None \<or>
      (case node_value entry of
         None \<Rightarrow> True
       | Some v \<Rightarrow> CHR '':'' \<notin> set v \<or> py_int (py_split (CHR '':'') v ! 1) = None))"

text \<open>
  A well-formed configuration tree: every node has a key; a node is a non-empty
  directory of well-formed nodes, or it has a value.
\<close>

fun well_formed_tree :: "node \<Rightarrow> bool" where
  "well_formed_tree (Node k v d ns) =
     (k \<noteq> None \<and>
      (if d = Some True \<and> ns \<noteq> None \<and> the ns \<noteq> [] then list_all well_formed_tree (the ns)
       else v \<noteq> None))"

definition last_segment :: "node \<Rightarrow> string" where
  "last_segment n = last (py_split (CHR ''/'') (the (key n)))"

text \<open>
  What a node resolves to, as the specification says it: a leaf resolves to its scalar
  value; a non-empty directory resolves to the shallow merge of the one-key mappings of
  its children. The merge is described by what it holds, not by how it is built: its
  keys are pairwise distinct, they are the last path segments of the children, and under
  each of them stands what the last child with that segment resolves to (a later child
  overwrites an earlier one with the same key).
\<close>

fun resolves_to :: "node \<Rightarrow> pyval \<Rightarrow> bool"
  and children_in :: "node list \<Rightarrow> dict \<Rightarrow> bool" where
  "resolves_to (Node k v d ns) r =
     (if d = Some True \<and> ns \<noteq> None \<and> the ns \<noteq> []
      then (case r of
              PDict m \<Rightarrow>
                distinct (map fst m) \<and> fst ` set m = last_segment ` set (the ns) \<and>
                children_in (the ns) m
            | _ \<Rightarrow> False)
      else r = PStr (the v))"
| "children_in [] m = True"
| "children_in (c # later) m =
     ((last_segment c \<in> last_segment ` set later \<or>
       (case map_of m (last_segment c) of None \<Rightarrow> False | Some r \<Rightarrow> resolves_to c r)) \<and>
      children_in later m)"

text \<open>
  For the proofs only: the value that \<^verbatim>\<open>build_conf\<close> computes on a well-formed tree,
  in closed form.
\<close>

fun resolved_value :: "node \<Rightarrow> pyval" where
  "resolved_value (Node k v d ns) =
     (if d = Some True \<and> ns \<noteq> None \<and> the ns \<noteq> []
      then PDict (merge_dicts (map (\<lambda>c. [(last_segment c, resolved_value c)]) (the ns)))
      else PStr (the v))"

text \<open>A request entry that is neither a bare name nor a pair of name and alias.\<close>

definition malformed_request :: "request \<Rightarrow> bool" where
  "malformed_request val = (case val of RStr _ \<Rightarrow> False | RTuple [_, _] \<Rightarrow> False | _ \<Rightarrow> True)"

text \<open>The test of line 116: the call is answered from \<^verbatim>\<open>_cached_result\<close>.\<close>

definition cache_hit :: "string option \<Rightarrow> bool \<Rightarrow> cache \<Rightarrow> bool" where
  "cache_hit cache_key force_refresh cached_result =
     (\<not> force_refresh \<and> truthy_str cache_key \<and> the cache_key \<in> dom cached_result)"

subsection \<open>Two states of a store\<close>

text \<open>
  \<open>example_store\<close> holds a service \<^verbatim>\<open>mongo\<close> with two replicas, a service
  \<^verbatim>\<open>mongo-test\<close> with one, a service \<^verbatim>\<open>redis\<close> one of whose leaves has no port, a
  configuration \<^verbatim>\<open>app\<close> that is the tree \<^verbatim>\<open>{a: {b: {c: "v"}}}\<close>, a configuration
  \<^verbatim>\<open>shop\<close> with two values and a directory of two values, a configuration \<^verbatim>\<open>web\<close>
  with one value and one empty directory, and nothing else. \<open>changed_store\<close> is the same
  store after \<^verbatim>\<open>mongo\<close> has moved.
\<close>

definition mongo_nodes :: "node list" where
  "mongo_nodes =
     [Node (Some ''/backends/mongo/r1'') (Some ''10.0.0.1:27017'') None None,
      Node (Some ''/backends/mongo/r2'') (Some ''10.0.0.2:27018'') None None]"

definition redis_nodes :: "node list" where
  "redis_nodes =
     [Node (Some ''/backends/redis/n1'') (Some ''10.0.0.5:6379'') None None,
      Node (Some ''/backends/redis/n2'') (Some ''localhost'') None None]"

definition app_tree :: node where
  "app_tree =
     Node (Some ''/project-conf/app'') None (Some True)
       (Some [Node (Some ''/project-conf/app/a'') None (Some True)
         (Some [Node (Some ''/project-conf/app/a/b'') None (Some True)
           (Some [Node (Some ''/project-conf/app/a/b/c'') (Some ''v'') None None])])])"

definition shop_tree :: node where
  "shop_tree =
     Node (Some ''/project-conf/shop'') None (Some True)
       (Some [Node (Some ''/project-conf/shop/name'') (Some ''books'') None None,
              Node (Some ''/project-conf/shop/db'') None (Some True)
                (Some [Node (Some ''/project-conf/shop/db/host'') (Some ''10.0.0.7'') None None,
                       Node (Some ''/project-conf/shop/db/port'') (Some ''5432'') None None]),
              Node (Some ''/project-conf/shop/mode'') (Some ''live'') None None])"

definition web_tree :: node where
  "web_tree =
     Node (Some ''/project-conf/web'') None (Some True)
       (Some [Node (Some ''/project-conf/web/x'') (Some ''1'') None None,
              Node (Some ''/project-conf/web/empty'') None (Some True) None])"

definition example_store :: store where
  "example_store u =
     (if u = ''http://etcd/v2/keys/backends/mongo''
      then Body (Some (Node (Some ''/backends/mongo'') None (Some True) (Some mongo_nodes)))
      else if u = ''http://etcd/v2/keys/backends/mongo-test''
      then Body (Some (Node (Some ''/backends/mongo-test'') None (Some True)
             (Some [Node (Some ''/backends/mongo-test/t1'') (Some ''127.0.0.1:27017'') None None])))
      else if u = ''http://etcd/v2/keys/backends/redis''
      then Body (Some (Node (Some ''/backends/redis'') None (Some True) (Some redis_nodes)))
      else if u = ''http://etcd/v2/keys/project-conf/app?recursive=true''
      then Body (Some app_tree)
      else if u = ''http://etcd/v2/keys/project-conf/shop?recursive=true''
      then Body (Some shop_tree)
      else if u = ''http://etcd/v2/keys/project-conf/web?recursive=true''
      then Body (Some web_tree)
      else Body None)"

definition changed_store :: store where
  "changed_store u =
     (if u = ''http://etcd/v2/keys/backends/mongo''
      then Body (Some (Node (Some ''/backends/mongo'') None (Some True)
             (Some [Node (Some ''/backends/mongo/r1'') (Some ''10.0.0.9:27017'') None None])))
      else example_store u)"

section \<open>Properties\<close>

subsection \<open>Strings and dictionaries\<close>

lemma py_split_not_Nil: "py_split sep s \<noteq> []"
  by (induction s) (auto split: list.splits)

lemma py_split_no_sep: "sep \<notin> set s \<Longrightarrow> py_split sep s = [s]"
  by (induction s) auto

lemma py_split_length: "length (py_split sep s) = Suc (length (filter (\<lambda>c. c = sep) s))"
  by (induction s) (auto split: list.splits simp: py_split_not_Nil)

lemma py_split_hd: "hd (py_split sep s) = takeWhile (\<lambda>c. c \<noteq> sep) s"
  by (induction s) (auto split: list.splits simp: py_split_not_Nil)

lemma py_split_two: "sep \<in> set s \<Longrightarrow> \<exists>h p rest. py_split sep s = h # p # rest"
proof -
  assume "sep \<in> set s"
  then have "filter (\<lambda>c. c = sep) s \<noteq> []"
    by (auto simp: filter_empty_conv)
  then have "2 \<le> length (py_split sep s)"
    by (cases "filter (\<lambda>c. c = sep) s") (auto simp: py_split_length)
  then show ?thesis
    by (cases "py_split sep s" rule: list.exhaust; cases "tl (py_split sep s)") auto
qed

lemma update_fresh: "k \<notin> fst ` set m \<Longrightarrow> AList.update k v m = m @ [(k, v)]"
  by (induction m) auto

lemma fold_update_distinct:
  "distinct (map fst (m @ ps)) \<Longrightarrow> fold (\<lambda>(k, v). AList.update k v) ps m = m @ ps"
proof (induction ps arbitrary: m)
  case Nil
  then show ?case by simp
next
  case (Cons p ps)
  obtain k v where p: "p = (k, v)" by (cases p)
  from Cons.prems have fresh: "k \<notin> fst ` set m" by (auto simp: p)
  from Cons.prems have "distinct (map fst ((m @ [(k, v)]) @ ps))" by (simp add: p)
  from Cons.IH[OF this] show ?case by (simp add: p update_fresh[OF fresh])
qed

lemma py_dict_distinct: "distinct (map fst ps) \<Longrightarrow> py_dict ps = ps"
  using fold_update_distinct[of "[]" ps] by (simp add: py_dict_def)

lemma py_map_Inl: "py_map f xs = Inl e \<Longrightarrow> \<exists>x \<in> set xs. f x = Inl e"
  by (induction xs) (auto split: sum.splits)

lemma py_map_Inr: "py_map f xs = Inr ys \<Longrightarrow> \<forall>x \<in> set xs. \<exists>y. f x = Inr y"
  by (induction xs arbitrary: ys) (auto split: sum.splits)

lemma py_map_all_Inr: "\<forall>x \<in> set xs. f x = Inr (g x) \<Longrightarrow> py_map f xs = Inr (map g xs)"
  by (induction xs) auto

subsection \<open>Service entries\<close>

lemma get_service_entry_malformed:
  "malformed_leaf entry \<Longrightarrow>
     get_service_entry entry \<in> {Inl KeyError, Inl IndexError, Inl ValueError}"
  unfolding malformed_leaf_def get_service_entry_def
  by (auto split: option.splits list.splits simp: py_split_no_sep dest!: py_split_two)

lemma get_service_entry_well_formed:
  "well_formed_leaf entry \<Longrightarrow> get_service_entry entry = Inr (replica_entry entry)"
  unfolding well_formed_leaf_def get_service_entry_def replica_entry_def replica_id_def
    host_of_def port_of_def
  using py_split_hd[of "CHR '':''" "the (node_value entry)"]
  by (auto split: option.splits list.splits dest!: py_split_two)

lemma get_service_entry_errors:
  "get_service_entry entry = Inl e \<Longrightarrow> e \<in> {KeyError, IndexError, ValueError}"
  unfolding get_service_entry_def
  by (auto split: option.splits list.splits)

text \<open>
  Claim C2: when the listing of a service holds a leaf that misses its key or its value,
  whose value has no colon, or whose second colon-separated segment is not an integer,
  \<^verbatim>\<open>get_service\<close> returns \<^verbatim>\<open>None\<close> for the whole service, whatever the other leaves
  are.
\<close>

theorem get_service_malformed_leaf:
  assumes "st (service_url etcd_url service_name) = Body (Some n)"
    and "nodes n = Some ns"
    and "entry \<in> set ns"
    and "malformed_leaf entry"
  shows "get_service st etcd_url service_name alias =
           (Inr None, [service_url etcd_url service_name])"
proof -
  have "\<exists>e. py_map get_service_entry ns = Inl e"
  proof (cases "py_map get_service_entry ns")
    case (Inr ys)
    from py_map_Inr[OF this] assms(3) obtain y where "get_service_entry entry = Inr y"
      by blast
    with get_service_entry_malformed[OF assms(4)] show ?thesis by auto
  qed auto
  then obtain e where e: "py_map get_service_entry ns = Inl e" ..
  from py_map_Inl[OF this] get_service_entry_errors
  have "e \<in> {KeyError, IndexError, ValueError}" by blast
  with e assms(1,2) show ?thesis
    by (auto simp: get_service_def get_service_try_def requests_get_json_def Let_def)
qed

theorem get_service_malformed_leaf_witness:
  "get_service example_store ''http://etcd'' ''redis'' ''cache'' =
     (Inr None, [''http://etcd/v2/keys/backends/redis''])"
proof -
  have "get_service example_store ''http://etcd'' ''redis'' ''cache'' =
          (Inr None, [service_url ''http://etcd'' ''redis''])"
    by (rule get_service_malformed_leaf
          [where n = "Node (Some ''/backends/redis'') None (Some True) (Some redis_nodes)"
             and ns = redis_nodes
             and entry = "Node (Some ''/backends/redis/n2'') (Some ''localhost'') None None"])
       (simp_all add: example_store_def service_url_def redis_nodes_def malformed_leaf_def)
  then show ?thesis by (simp add: service_url_def)
qed

text \<open>
  Claim C4: for a directory whose \<open>N\<close> children are leaves with a key and a value
  \<^verbatim>\<open>host:port\<close> with an integer port, and whose replica ids tell the children apart,
  \<^verbatim>\<open>get_service\<close> returns a mapping with the alias as its only key, under which stand
  exactly \<open>N\<close> replicas, one per child in order: each under the last path segment of its
  key, with the host before the first colon and the port as an integer.
\<close>

theorem get_service_well_formed:
  assumes "st (service_url etcd_url service_name) = Body (Some n)"
    and "nodes n = Some ns"
    and "\<forall>entry \<in> set ns. well_formed_leaf entry"
    and "distinct (map replica_id ns)"
  shows "get_service st etcd_url service_name alias =
           (Inr (Some [(alias, PDict (map replica_entry ns))]),
            [service_url etcd_url service_name])"
proof -
  have m: "py_map get_service_entry ns = Inr (map replica_entry ns)"
    using assms(3) by (intro py_map_all_Inr) (simp add: get_service_entry_well_formed)
  have "map fst (map replica_entry ns) = map replica_id ns"
    by (simp add: replica_entry_def comp_def)
  with assms(4) have "distinct (map fst (map replica_entry ns))"
    by (simp only:)
  then have "py_dict (map replica_entry ns) = map replica_entry ns"
    by (rule py_dict_distinct)
  with m assms(1,2) show ?thesis
    by (simp add: get_service_def get_service_try_def requests_get_json_def Let_def)
qed

theorem get_service_well_formed_witness:
  "get_service example_store ''http://etcd'' ''mongo'' ''db'' =
     (Inr (Some [(''db'', PDict
        [(''r1'', PDict [(''host'', PStr ''10.0.0.1''), (''port'', PInt 27017)]),
         (''r2'', PDict [(''host'', PStr ''10.0.0.2''), (''port'', PInt 27018)])])]),
      [''http://etcd/v2/keys/backends/mongo''])"
proof -
  have "get_service example_store ''http://etcd'' ''mongo'' ''db'' =
          (Inr (Some [(''db'', PDict (map replica_entry mongo_nodes))]),
           [service_url ''http://etcd'' ''mongo''])"
    by (rule get_service_well_formed
          [where n = "Node (Some ''/backends/mongo'') None (Some True) (Some mongo_nodes)"])
       (simp_all add: example_store_def service_url_def mongo_nodes_def well_formed_leaf_def
          port_of_def replica_id_def py_int_def strip_def is_space_def digit_value_def)
  then show ?thesis
    by (simp add: service_url_def mongo_nodes_def replica_entry_def replica_id_def host_of_def
          port_of_def py_int_def strip_def is_space_def digit_value_def)
qed

subsection \<open>Merging dictionaries\<close>

lemma comprehension_append:
  "comprehension f (xs @ ys) =
     (case comprehension f xs of
        (Inl e, q) \<Rightarrow> (Inl e, q)
      | (Inr rs, q) \<Rightarrow>
          (case comprehension f ys of
             (Inl e, q') \<Rightarrow> (Inl e, q @ q')
           | (Inr rs', q') \<Rightarrow> (Inr (rs @ rs'), q @ q')))"
  by (induction xs) (auto split: prod.splits sum.splits)

lemma map_of_fold_update:
  "map_of (fold (\<lambda>(k, v). AList.update k v) d m) = map_of m ++ map_of (rev d)"
proof (induction d arbitrary: m)
  case Nil
  then show ?case by simp
next
  case (Cons p d)
  obtain k v where p: "p = (k, v)" by (cases p)
  have "map_of (rev (p # d)) = map_of [(k, v)] ++ map_of (rev d)"
    by (simp add: p)
  then show ?case
    by (auto simp: Cons.IH p update_conv' map_add_def fun_eq_iff split: option.splits)
qed

lemma keys_fold_update:
  "fst ` set (fold (\<lambda>(k, v). AList.update k v) d m) = fst ` set m \<union> fst ` set d"
  by (induction d arbitrary: m) (auto simp: dom_update image_iff split: prod.splits)

lemma keys_py_update: "fst ` set (py_update m d) = fst ` set m \<union> fst ` set d"
  by (simp add: py_update_def keys_fold_update)

lemma py_update_single: "py_update m [(k, v)] = AList.update k v m"
  by (simp add: py_update_def)

lemma map_of_py_update_single: "map_of (py_update m [(k, v)]) = (map_of m)(k \<mapsto> v)"
  by (simp add: py_update_def update_conv')

lemma map_of_py_update_other: "k \<notin> fst ` set d \<Longrightarrow> map_of (py_update m d) k = map_of m k"
proof -
  assume "k \<notin> fst ` set d"
  then have "map_of (rev d) k = None"
    by (simp add: map_of_eq_None_iff)
  then show ?thesis
    by (simp add: py_update_def map_of_fold_update map_add_def)
qed

lemma distinct_fold_update:
  "distinct (map fst m) \<Longrightarrow> distinct (map fst (fold (\<lambda>(k, v). AList.update k v) d m))"
  by (induction d arbitrary: m) (auto simp: distinct_update split: prod.splits)

lemma distinct_py_update: "distinct (map fst m) \<Longrightarrow> distinct (map fst (py_update m d))"
  by (simp add: py_update_def distinct_fold_update)


lemma merge_dicts_snoc: "merge_dicts (ds @ [d]) = py_update (merge_dicts ds) d"
  by (simp add: merge_dicts_def)

lemma keys_merge_dicts: "fst ` set (merge_dicts ds) = (\<Union>d \<in> set ds. fst ` set d)"
proof (induction ds rule: rev_induct)
  case Nil
  then show ?case by (simp add: merge_dicts_def)
next
  case (snoc d ds)
  then show ?case by (simp add: merge_dicts_snoc keys_py_update Un_commute)
qed

lemma distinct_merge_dicts: "distinct (map fst (merge_dicts ds))"
proof (induction ds rule: rev_induct)
  case Nil
  then show ?case by (simp add: merge_dicts_def)
next
  case (snoc d ds)
  then show ?case by (simp add: merge_dicts_snoc distinct_py_update)
qed

lemma map_of_merge_dicts_append:
  "\<forall>d \<in> set ds'. k \<notin> fst ` set d \<Longrightarrow>
     map_of (merge_dicts (ds @ ds')) k = map_of (merge_dicts ds) k"
proof (induction ds' rule: rev_induct)
  case Nil
  then show ?case by simp
next
  case (snoc d ds')
  then have "map_of (merge_dicts ((ds @ ds') @ [d])) k = map_of (merge_dicts (ds @ ds')) k"
    unfolding merge_dicts_snoc by (intro map_of_py_update_other) simp
  with snoc show ?case by simp
qed

lemma map_of_merge_dicts_singles:
  assumes "cs = pre @ c # later" and "f c \<notin> f ` set later"
  shows "map_of (merge_dicts (map (\<lambda>c. [(f c, g c)]) cs)) (f c) = Some (g c)"
proof -
  have "map (\<lambda>c. [(f c, g c)]) cs =
      (map (\<lambda>c. [(f c, g c)]) pre @ [[(f c, g c)]]) @ map (\<lambda>c. [(f c, g c)]) later"
    by (simp add: assms(1))
  moreover have "\<forall>d \<in> set (map (\<lambda>c. [(f c, g c)]) later). f c \<notin> fst ` set d"
    using assms(2) by auto
  ultimately have "map_of (merge_dicts (map (\<lambda>c. [(f c, g c)]) cs)) (f c) =
      map_of (merge_dicts (map (\<lambda>c. [(f c, g c)]) pre @ [[(f c, g c)]])) (f c)"
    by (simp only: map_of_merge_dicts_append)
  then show ?thesis
    by (simp add: merge_dicts_snoc map_of_py_update_single)
qed

subsection \<open>Configuration trees\<close>

lemma build_conf_well_formed:
  "well_formed_tree n \<longrightarrow>
     build_conf n node_alias =
       Inr (Some [(if truthy_str node_alias then the node_alias else last_segment n,
                   resolved_value n)])"
  "list_all well_formed_tree cs \<longrightarrow>
     build_loop cs m =
       Inr (fold (\<lambda>c acc. py_update acc [(last_segment c, resolved_value c)]) cs m)"
proof (induction n node_alias and cs m rule: build_conf_build_loop.induct)
  case (1 k v d ns node_alias)
  show ?case
  proof
    assume wf: "well_formed_tree (Node k v d ns)"
    show "build_conf (Node k v d ns) node_alias =
      Inr (Some [(if truthy_str node_alias then the node_alias
                  else last_segment (Node k v d ns),
                  resolved_value (Node k v d ns))])"
    proof (cases "d = Some True \<and> ns \<noteq> None \<and> the ns \<noteq> []")
      case True
      with wf have kids: "list_all well_formed_tree (the ns)" by simp
      from wf obtain p where p: "k = Some p" by auto
      have "build_loop (the ns) [] =
          Inr (fold (\<lambda>c acc. py_update acc [(last_segment c, resolved_value c)]) (the ns) [])"
        using 1[of "if truthy_str node_alias then the node_alias
                    else last (py_split (CHR ''/'') p)"] True kids p
        by (auto split: if_splits)
      then show ?thesis using True p
        by (auto simp: merge_dicts_def fold_map comp_def last_segment_def)
    next
      case False
      with wf show ?thesis by (auto simp: last_segment_def)
    qed
  qed
next
  case (2 m)
  then show ?case by simp
next
  case (3 n rest m)
  then show ?case by (auto simp: truthy_str_def)
qed

lemma children_in_suffix:
  assumes "\<And>pre c later. cs = pre @ c # later \<Longrightarrow> last_segment c \<notin> last_segment ` set later \<Longrightarrow>
             (case map_of m (last_segment c) of None \<Rightarrow> False | Some r \<Rightarrow> resolves_to c r)"
  shows "cs = pre @ rest \<Longrightarrow> children_in rest m"
proof (induction rest arbitrary: pre)
  case Nil
  then show ?case by simp
next
  case (Cons c rest)
  from Cons.prems have "cs = (pre @ [c]) @ rest" by simp
  from Cons.IH[OF this] have "children_in rest m" .
  moreover have "last_segment c \<in> last_segment ` set rest \<or>
       (case map_of m (last_segment c) of None \<Rightarrow> False | Some r \<Rightarrow> resolves_to c r)"
    using assms[OF Cons.prems] by blast
  ultimately show ?case by simp
qed

lemma resolved_value_resolves: "well_formed_tree n \<Longrightarrow> resolves_to n (resolved_value n)"
proof (induction n rule: resolved_value.induct)
  case (1 k v d ns)
  show ?case
  proof (cases "d = Some True \<and> ns \<noteq> None \<and> the ns \<noteq> []")
    case True
    let ?m = "merge_dicts (map (\<lambda>c. [(last_segment c, resolved_value c)]) (the ns))"
    from "1.prems" True have wf: "\<forall>c \<in> set (the ns). well_formed_tree c"
      by (simp add: list_all_iff)
    have kids: "\<And>c. c \<in> set (the ns) \<Longrightarrow> resolves_to c (resolved_value c)"
      using "1.IH" True wf by blast
    have keys: "fst ` set ?m = last_segment ` set (the ns)"
      by (auto simp: keys_merge_dicts)
    have "children_in (the ns) ?m"
    proof (rule children_in_suffix[of "the ns" ?m "[]"])
      fix pre c later
      assume split: "the ns = pre @ c # later"
        and fresh: "last_segment c \<notin> last_segment ` set later"
      from map_of_merge_dicts_singles[OF split fresh, of resolved_value]
      have "map_of ?m (last_segment c) = Some (resolved_value c)" .
      moreover from split have "c \<in> set (the ns)" by simp
      ultimately show "case map_of ?m (last_segment c) of None \<Rightarrow> False
          | Some r \<Rightarrow> resolves_to c r"
        using kids by simp
    qed simp
    with keys True show ?thesis by (simp add: distinct_merge_dicts)
  next
    case False
    then show ?thesis by auto
  qed
qed

text \<open>
  Claim C7, as amended: on a well-formed tree \<^verbatim>\<open>get_conf\<close> returns a mapping with one
  key. The key is the alias of the caller when the alias is not empty (with the empty
  alias it is the last path segment of the root's key in the store). Under it stands
  what the root resolves to: a leaf resolves to its value, a non-empty directory to the
  shallow merge of the one-key mappings of its children. The tree \<^verbatim>\<open>{a: {b: {c: "v"}}}\<close>
  resolves to \<^verbatim>\<open>{alias: {a: {b: {c: "v"}}}}\<close>.
\<close>

theorem get_conf_well_formed:
  assumes "st (conf_url etcd_url conf_name) = Body (Some n)"
    and "well_formed_tree n"
  shows "\<exists>r. get_conf st etcd_url conf_name alias =
           (Inr (Some [(if alias \<noteq> [] then alias else last_segment n, r)]),
            [conf_url etcd_url conf_name]) \<and>
         resolves_to n r"
  using assms build_conf_well_formed(1)[of n "Some alias"] resolved_value_resolves[of n]
  by (auto simp: get_conf_def requests_get_json_def truthy_str_def)

theorem get_conf_well_formed_witness:
  "get_conf example_store ''http://etcd'' ''app'' ''alias'' =
     (Inr (Some [(''alias'', PDict [(''a'', PDict [(''b'', PDict [(''c'', PStr ''v'')])])])]),
      [''http://etcd/v2/keys/project-conf/app?recursive=true''])
   \<and> resolves_to app_tree (PDict [(''a'', PDict [(''b'', PDict [(''c'', PStr ''v'')])])])
   \<and> get_conf example_store ''http://etcd'' ''shop'' ''cfg'' =
     (Inr (Some [(''cfg'', PDict
        [(''name'', PStr ''books''),
         (''db'', PDict [(''host'', PStr ''10.0.0.7''), (''port'', PStr ''5432'')]),
         (''mode'', PStr ''live'')])]),
      [''http://etcd/v2/keys/project-conf/shop?recursive=true''])
   \<and> resolves_to shop_tree (PDict
        [(''name'', PStr ''books''),
         (''db'', PDict [(''host'', PStr ''10.0.0.7''), (''port'', PStr ''5432'')]),
         (''mode'', PStr ''live'')])"
proof -
  have app: "get_conf example_store ''http://etcd'' ''app'' ''alias'' =
     (Inr (Some [(''alias'', PDict [(''a'', PDict [(''b'', PDict [(''c'', PStr ''v'')])])])]),
      [''http://etcd/v2/keys/project-conf/app?recursive=true''])"
    by (simp add: get_conf_def conf_url_def example_store_def app_tree_def
          requests_get_json_def truthy_str_def py_update_def)
  have shop: "get_conf example_store ''http://etcd'' ''shop'' ''cfg'' =
     (Inr (Some [(''cfg'', PDict
        [(''name'', PStr ''books''),
         (''db'', PDict [(''host'', PStr ''10.0.0.7''), (''port'', PStr ''5432'')]),
         (''mode'', PStr ''live'')])]),
      [''http://etcd/v2/keys/project-conf/shop?recursive=true''])"
    by (simp add: get_conf_def conf_url_def example_store_def shop_tree_def
          requests_get_json_def truthy_str_def py_update_def)
  have "example_store (conf_url ''http://etcd'' ''app'') = Body (Some app_tree)"
    by (simp add: example_store_def conf_url_def)
  moreover have "well_formed_tree app_tree"
    by (simp add: app_tree_def)
  ultimately have
    "\<exists>r. get_conf example_store ''http://etcd'' ''app'' ''alias'' =
           (Inr (Some [(if ''alias'' \<noteq> [] then ''alias'' else last_segment app_tree, r)]),
            [conf_url ''http://etcd'' ''app'']) \<and>
         resolves_to app_tree r"
    by (rule get_conf_well_formed)
  then have a:
    "resolves_to app_tree (PDict [(''a'', PDict [(''b'', PDict [(''c'', PStr ''v'')])])])"
    unfolding app by auto
  have "example_store (conf_url ''http://etcd'' ''shop'') = Body (Some shop_tree)"
    by (simp add: example_store_def conf_url_def)
  moreover have "well_formed_tree shop_tree"
    by (simp add: shop_tree_def)
  ultimately have
    "\<exists>r. get_conf example_store ''http://etcd'' ''shop'' ''cfg'' =
           (Inr (Some [(if ''cfg'' \<noteq> [] then ''cfg'' else last_segment shop_tree, r)]),
            [conf_url ''http://etcd'' ''shop'']) \<and>
         resolves_to shop_tree r"
    by (rule get_conf_well_formed)
  then have b: "resolves_to shop_tree (PDict
        [(''name'', PStr ''books''),
         (''db'', PDict [(''host'', PStr ''10.0.0.7''), (''port'', PStr ''5432'')]),
         (''mode'', PStr ''live'')])"
    unfolding shop by auto
  from app a shop b show ?thesis by simp
qed

text \<open>
  Claim C7 as stated fails for the empty alias, which line 72 takes for no alias: the
  key of the result is then the name of the root in the store, here \<^verbatim>\<open>app\<close>.
\<close>

theorem get_conf_empty_alias_counterexample:
  "get_conf example_store ''http://etcd'' ''app'' [] =
     (Inr (Some [(''app'', PDict [(''a'', PDict [(''b'', PDict [(''c'', PStr ''v'')])])])]),
      [''http://etcd/v2/keys/project-conf/app?recursive=true''])"
  by (simp add: get_conf_def conf_url_def example_store_def app_tree_def
        requests_get_json_def truthy_str_def py_update_def)

text \<open>
  Claim C1 (not what the program does): a directory without children below the root
  does not leave its position empty. \<^verbatim>\<open>build_conf\<close> returns \<^verbatim>\<open>None\<close> for it, the loop
  of its parent passes that to \<^verbatim>\<open>m.update\<close>, and the \<^verbatim>\<open>TypeError\<close> ends the whole
  \<^verbatim>\<open>get_conf\<close>: here on the configuration \<^verbatim>\<open>web\<close>, which holds the value \<^verbatim>\<open>x\<close> and
  an empty directory.
\<close>

theorem get_conf_empty_directory_raises:
  "get_conf example_store ''http://etcd'' ''web'' ''cfg'' =
     (Inl TypeError, [''http://etcd/v2/keys/project-conf/web?recursive=true''])"
  by (simp add: get_conf_def conf_url_def example_store_def web_tree_def requests_get_json_def
        truthy_str_def py_update_def)

subsection \<open>Request entries\<close>

lemma build_tuple_malformed: "malformed_request val \<Longrightarrow> build_tuple val = Inl ValueError"
  by (cases val rule: build_tuple.cases) (auto simp: malformed_request_def)

text \<open>
  Claim C9: \<^verbatim>\<open>_build_tuple\<close> returns \<^verbatim>\<open>(name, name)\<close> for a string, the pair itself for
  a tuple of two elements, and raises \<^verbatim>\<open>ValueError\<close> for every other value.
\<close>

theorem build_tuple_shapes:
  "build_tuple (RStr name) = Inr (name, name) \<and>
   build_tuple (RTuple [name, alias]) = Inr (name, alias) \<and>
   ((\<forall>s. val \<noteq> RStr s) \<and> (\<forall>a b. val \<noteq> RTuple [a, b]) \<longrightarrow> build_tuple val = Inl ValueError)"
  by (cases val rule: build_tuple.cases) auto

theorem build_tuple_shapes_witness:
  "build_tuple (RStr ''mongodb-master'') = Inr (''mongodb-master'', ''mongodb-master'') \<and>
   build_tuple (RTuple [''mongodb-master'', ''mongodb'']) = Inr (''mongodb-master'', ''mongodb'') \<and>
   build_tuple (RTuple [''a'', ''b'', ''c'']) = Inl ValueError"
  using build_tuple_shapes[of "''mongodb-master''" "''mongodb''" "RTuple [''a'', ''b'', ''c'']"]
  by simp

subsection \<open>The results of \<^verbatim>\<open>info\<close>\<close>

lemma get_service_Some:
  "get_service st etcd_url service_name alias = (Inr (Some d), q) \<Longrightarrow> \<exists>r. d = [(alias, PDict r)]"
  by (auto simp: get_service_def get_service_try_def Let_def
      split: sum.splits option.splits if_splits)



lemma compute_result_Inr:
  assumes "comprehension (service_of_entry st etcd_url) (or_empty service_names) = (Inr ss, q)"
    and "comprehension (conf_of_entry st etcd_url) (or_empty conf_names) = (Inr cs, q')"
  shows "compute_result st etcd_url service_names conf_names =
           (Inr (py_update [(''services'', PDict (merge_dicts (map the (filter truthy ss))))]
                   (merge_dicts (map the (filter truthy cs)))),
            q @ q')"
  using assms by (simp add: compute_result_def merge_dicts_def py_update_def)

lemma info_no_hit:
  assumes "\<not> cache_hit cache_key force_refresh cached_result"
    and "compute_result st etcd_url service_names conf_names = (Inr result, reqs)"
  shows "\<exists>cached_result'. info st etcd_url service_names conf_names cache_key force_refresh cached_result
           = (Inr result, cached_result', reqs)"
  using assms by (auto simp: info_def cache_hit_def)

lemma no_services_key:
  assumes "\<forall>d. Some d \<in> set cs \<longrightarrow> ''services'' \<notin> fst ` set d"
  shows "''services'' \<notin> fst ` set (merge_dicts (map the (filter truthy cs)))"
proof -
  have "\<And>d. d \<in> set (map the (filter truthy cs)) \<Longrightarrow> Some d \<in> set cs"
    by (auto simp: truthy_def split: option.splits)
  with assms show ?thesis
    unfolding keys_merge_dicts by blast
qed


lemma comprehension_all_Inr:
  "\<forall>x \<in> set xs. \<exists>r q. f x = (Inr r, q) \<Longrightarrow>
     comprehension f xs =
       (Inr (map (\<lambda>x. projr (fst (f x))) xs), concat (map (\<lambda>x. snd (f x)) xs))"
  by (induction xs) (auto split: prod.splits sum.splits)

lemma comprehension_fails:
  "x \<in> set xs \<Longrightarrow> f x = (Inl e, q) \<Longrightarrow> \<exists>e' q'. comprehension f xs = (Inl e', q')"
  by (induction xs) (auto split: prod.splits sum.splits)


lemma comprehension_stops:
  assumes "\<forall>x \<in> set pre. \<exists>r q. f x = (Inr r, q)" and "f bad = (Inl e, q)"
  shows "comprehension f (pre @ bad # post) = (Inl e, concat (map (\<lambda>x. snd (f x)) pre) @ q)"
  using assms by (simp add: comprehension_append comprehension_all_Inr)

text \<open>Evaluations on the two stores, for the examples below.\<close>

lemmas eval_defs =
  compute_result_def or_empty_def service_of_entry_def conf_of_entry_def get_service_def
  get_service_try_def get_conf_def requests_get_json_def service_url_def conf_url_def
  get_service_entry_def py_int_def strip_def is_space_def digit_value_def py_dict_def
  truthy_def truthy_str_def merge_dicts_def py_update_def

lemma service_mongo:
  "service_of_entry example_store ''http://etcd'' (RStr ''mongo'') =
     (Inr (Some [(''mongo'', PDict
        [(''r1'', PDict [(''host'', PStr ''10.0.0.1''), (''port'', PInt 27017)]),
         (''r2'', PDict [(''host'', PStr ''10.0.0.2''), (''port'', PInt 27018)])])]),
      [''http://etcd/v2/keys/backends/mongo''])"
  by (simp add: eval_defs example_store_def mongo_nodes_def)

lemma service_mongo_changed:
  "service_of_entry changed_store ''http://etcd'' (RStr ''mongo'') =
     (Inr (Some [(''mongo'', PDict
        [(''r1'', PDict [(''host'', PStr ''10.0.0.9''), (''port'', PInt 27017)])])]),
      [''http://etcd/v2/keys/backends/mongo''])"
  by (simp add: eval_defs changed_store_def)



lemma service_redis:
  "service_of_entry example_store ''http://etcd'' (RStr ''redis'') =
     (Inr None, [''http://etcd/v2/keys/backends/redis''])"
  by (simp add: eval_defs example_store_def redis_nodes_def)

lemma conf_app:
  "get_conf example_store ''http://etcd'' ''app'' ''services'' =
     (Inr (Some [(''services'', PDict [(''a'', PDict [(''b'', PDict [(''c'', PStr ''v'')])])])]),
      [''http://etcd/v2/keys/project-conf/app?recursive=true''])"
  by (simp add: eval_defs example_store_def app_tree_def)


lemma compute_mongo:
  "compute_result example_store ''http://etcd'' (Some [RStr ''mongo'']) None =
     (Inr [(''services'', PDict [(''mongo'', PDict
        [(''r1'', PDict [(''host'', PStr ''10.0.0.1''), (''port'', PInt 27017)]),
         (''r2'', PDict [(''host'', PStr ''10.0.0.2''), (''port'', PInt 27018)])])])],
      [''http://etcd/v2/keys/backends/mongo''])"
  by (simp add: compute_result_def or_empty_def service_mongo truthy_def merge_dicts_def
        py_update_def)

lemma compute_mongo_changed:
  "compute_result changed_store ''http://etcd'' (Some [RStr ''mongo'']) None =
     (Inr [(''services'', PDict [(''mongo'', PDict
        [(''r1'', PDict [(''host'', PStr ''10.0.0.9''), (''port'', PInt 27017)])])])],
      [''http://etcd/v2/keys/backends/mongo''])"
  by (simp add: compute_result_def or_empty_def service_mongo_changed truthy_def merge_dicts_def
        py_update_def)

text \<open>
  Claim C10: when \<^verbatim>\<open>cache_key\<close> is \<^verbatim>\<open>None\<close> or the empty string, \<^verbatim>\<open>info\<close> neither
  reads nor writes \<^verbatim>\<open>_cached_result\<close>: the result and the requests are those of the
  computation from the store, whatever the cache holds, and the cache after the call is
  the cache before it.
\<close>

theorem info_without_cache_key:
  assumes "cache_key = None \<or> cache_key = Some []"
  shows "info st etcd_url service_names conf_names cache_key force_refresh cached_result =
           (fst (compute_result st etcd_url service_names conf_names), cached_result,
            snd (compute_result st etcd_url service_names conf_names))"
  using assms by (auto simp: info_def truthy_str_def split: prod.splits sum.splits)

theorem info_without_cache_key_witness:
  "info example_store ''http://etcd'' (Some [RStr ''mongo'']) None (Some []) False
       [''boot'' \<mapsto> []] =
     (Inr [(''services'', PDict [(''mongo'', PDict
        [(''r1'', PDict [(''host'', PStr ''10.0.0.1''), (''port'', PInt 27017)]),
         (''r2'', PDict [(''host'', PStr ''10.0.0.2''), (''port'', PInt 27018)])])])],
      [''boot'' \<mapsto> []],
      [''http://etcd/v2/keys/backends/mongo''])"
  using info_without_cache_key[of "Some []" example_store "''http://etcd''"
      "Some [RStr ''mongo'']" None False "[''boot'' \<mapsto> []]"]
  by (simp add: compute_mongo)

text \<open>
  Claim C3, as amended: for every non-empty \<^verbatim>\<open>cache_key\<close>, once a call with that key
  and \<^verbatim>\<open>force_refresh=False\<close> has returned a bundle, a second such call returns the
  same bundle, makes no request and leaves the cache as it is, whatever the store holds
  by then and whatever is asked for. A call with \<^verbatim>\<open>force_refresh=True\<close> computes the
  bundle from the store and, when that raises nothing, stores it under the key.
\<close>

theorem info_cache_key:
  assumes "k \<noteq> []"
  shows "(info st etcd_url service_names conf_names (Some k) False cached_result
            = (Inr bundle, cached_result', reqs) \<longrightarrow>
          info st' etcd_url' service_names' conf_names' (Some k) False cached_result'
            = (Inr bundle, cached_result', []))
       \<and> info st etcd_url service_names conf_names (Some k) True cached_result =
           (case compute_result st etcd_url service_names conf_names of
              (Inl e, reqs) \<Rightarrow> (Inl e, cached_result, reqs)
            | (Inr result, reqs) \<Rightarrow> (Inr result, cached_result(k \<mapsto> result), reqs))"
  using assms by (auto simp: info_def truthy_str_def split: prod.splits sum.splits if_splits)

theorem info_cache_key_witness:
  "info changed_store ''http://etcd'' (Some [RStr ''mongo'']) None (Some ''boot'') False
       (fst (snd (info example_store ''http://etcd'' (Some [RStr ''mongo'']) None
          (Some ''boot'') False Map.empty)))
     = (Inr [(''services'', PDict [(''mongo'', PDict
        [(''r1'', PDict [(''host'', PStr ''10.0.0.1''), (''port'', PInt 27017)]),
         (''r2'', PDict [(''host'', PStr ''10.0.0.2''), (''port'', PInt 27018)])])])],
        fst (snd (info example_store ''http://etcd'' (Some [RStr ''mongo'']) None
          (Some ''boot'') False Map.empty)),
        [])
   \<and> fst (info changed_store ''http://etcd'' (Some [RStr ''mongo'']) None (Some ''boot'') True
       (fst (snd (info example_store ''http://etcd'' (Some [RStr ''mongo'']) None
          (Some ''boot'') False Map.empty))))
     = Inr [(''services'', PDict [(''mongo'', PDict
          [(''r1'', PDict [(''host'', PStr ''10.0.0.9''), (''port'', PInt 27017)])])])]"
proof -
  let ?b = "[(''services'', PDict [(''mongo'', PDict
        [(''r1'', PDict [(''host'', PStr ''10.0.0.1''), (''port'', PInt 27017)]),
         (''r2'', PDict [(''host'', PStr ''10.0.0.2''), (''port'', PInt 27018)])])])]"
  have first:
    "info example_store ''http://etcd'' (Some [RStr ''mongo'']) None (Some ''boot'') False
         Map.empty
       = (Inr ?b, [''boot'' \<mapsto> ?b], [''http://etcd/v2/keys/backends/mongo''])"
    by (simp add: info_def truthy_str_def compute_mongo)
  have k: "''boot'' \<noteq> []" by simp
  note inst = info_cache_key[OF k, of example_store "''http://etcd''" "Some [RStr ''mongo'']"
      None Map.empty ?b "[''boot'' \<mapsto> ?b]" "[''http://etcd/v2/keys/backends/mongo'']"
      changed_store "''http://etcd''" "Some [RStr ''mongo'']" None]
  from inst first show ?thesis
    by (simp add: compute_mongo_changed info_def truthy_str_def)
qed

text \<open>
  Claim C3 as stated fails for the empty string, which is a cache key that line 116 and
  line 134 take for no key: the second call asks the store again and returns the bundle
  of the changed store.
\<close>

theorem info_empty_cache_key_counterexample:
  "fst (info example_store ''http://etcd'' (Some [RStr ''mongo'']) None (Some []) False
          Map.empty)
     = Inr [(''services'', PDict [(''mongo'', PDict
        [(''r1'', PDict [(''host'', PStr ''10.0.0.1''), (''port'', PInt 27017)]),
         (''r2'', PDict [(''host'', PStr ''10.0.0.2''), (''port'', PInt 27018)])])])]
   \<and> info changed_store ''http://etcd'' (Some [RStr ''mongo'']) None (Some []) False
       (fst (snd (info example_store ''http://etcd'' (Some [RStr ''mongo'']) None (Some [])
          False Map.empty)))
     = (Inr [(''services'', PDict [(''mongo'', PDict
          [(''r1'', PDict [(''host'', PStr ''10.0.0.9''), (''port'', PInt 27017)])])])],
        Map.empty,
        [''http://etcd/v2/keys/backends/mongo''])"
  by (simp add: info_def truthy_str_def compute_mongo compute_mongo_changed)

text \<open>
  Claim C5, as amended: when a request list holds an entry that is neither a string nor
  a tuple of two elements, a call of \<^verbatim>\<open>info\<close> that is not answered from the cache
  returns no result: it raises, and the cache stays as it was. The entries are handled in
  order, the services before the configurations, each normalised just before its own
  request: when the entries before the malformed one raise nothing, the error is
  \<^verbatim>\<open>ValueError\<close>, the requests made are exactly those of the entries before it, and
  none is made for an entry after it.
\<close>

theorem info_malformed_request:
  assumes "\<not> cache_hit cache_key force_refresh cached_result"
    and "malformed_request bad"
  shows "(bad \<in> set (or_empty service_names @ or_empty conf_names) \<longrightarrow>
            (\<exists>e reqs. info st etcd_url service_names conf_names cache_key force_refresh
                        cached_result = (Inl e, cached_result, reqs)))
       \<and> (or_empty service_names = pre @ bad # post \<and>
            (\<forall>x \<in> set pre. \<exists>r q. service_of_entry st etcd_url x = (Inr r, q)) \<longrightarrow>
            info st etcd_url service_names conf_names cache_key force_refresh cached_result
              = (Inl ValueError, cached_result,
                 concat (map (\<lambda>x. snd (service_of_entry st etcd_url x)) pre)))
       \<and> ((\<forall>x \<in> set (or_empty service_names).
               \<exists>r q. service_of_entry st etcd_url x = (Inr r, q)) \<and>
            or_empty conf_names = pre' @ bad # post' \<and>
            (\<forall>x \<in> set pre'. \<exists>r q. conf_of_entry st etcd_url x = (Inr r, q)) \<longrightarrow>
            info st etcd_url service_names conf_names cache_key force_refresh cached_result
              = (Inl ValueError, cached_result,
                 concat (map (\<lambda>x. snd (service_of_entry st etcd_url x))
                   (or_empty service_names)) @
                 concat (map (\<lambda>x. snd (conf_of_entry st etcd_url x)) pre')))"
proof -
  have sbad: "service_of_entry st etcd_url bad = (Inl ValueError, [])"
    using build_tuple_malformed[OF assms(2)] by (simp add: service_of_entry_def)
  have cbad: "conf_of_entry st etcd_url bad = (Inl ValueError, [])"
    using build_tuple_malformed[OF assms(2)] by (simp add: conf_of_entry_def)
  have nohit:
    "\<not> (\<not> force_refresh \<and> truthy_str cache_key \<and> the cache_key \<in> dom cached_result)"
    using assms(1) by (simp add: cache_hit_def)
  have one: "\<exists>e reqs. info st etcd_url service_names conf_names cache_key force_refresh
                        cached_result = (Inl e, cached_result, reqs)"
    if "bad \<in> set (or_empty service_names @ or_empty conf_names)"
  proof (cases "bad \<in> set (or_empty service_names)")
    case True
    from comprehension_fails[of bad _ "service_of_entry st etcd_url", OF True sbad]
    obtain e' q' where
      "comprehension (service_of_entry st etcd_url) (or_empty service_names) = (Inl e', q')"
      by blast
    then show ?thesis using nohit by (simp add: info_def compute_result_def)
  next
    case False
    with that have "bad \<in> set (or_empty conf_names)" by simp
    from comprehension_fails[of bad _ "conf_of_entry st etcd_url", OF this cbad]
    obtain e' q' where
      c: "comprehension (conf_of_entry st etcd_url) (or_empty conf_names) = (Inl e', q')"
      by blast
    show ?thesis
    proof (cases "comprehension (service_of_entry st etcd_url) (or_empty service_names)")
      case (Pair r q)
      then show ?thesis using nohit c
        by (cases r) (simp_all add: info_def compute_result_def)
    qed
  qed
  have two: "info st etcd_url service_names conf_names cache_key force_refresh cached_result
              = (Inl ValueError, cached_result,
                 concat (map (\<lambda>x. snd (service_of_entry st etcd_url x)) pre))"
    if "or_empty service_names = pre @ bad # post"
      and "\<forall>x \<in> set pre. \<exists>r q. service_of_entry st etcd_url x = (Inr r, q)"
    using comprehension_stops[of pre "service_of_entry st etcd_url", OF that(2) sbad, of post]
      that(1) nohit
    by (simp add: info_def compute_result_def)
  have three: "info st etcd_url service_names conf_names cache_key force_refresh cached_result
              = (Inl ValueError, cached_result,
                 concat (map (\<lambda>x. snd (service_of_entry st etcd_url x))
                   (or_empty service_names)) @
                 concat (map (\<lambda>x. snd (conf_of_entry st etcd_url x)) pre'))"
    if "\<forall>x \<in> set (or_empty service_names).
          \<exists>r q. service_of_entry st etcd_url x = (Inr r, q)"
      and "or_empty conf_names = pre' @ bad # post'"
      and "\<forall>x \<in> set pre'. \<exists>r q. conf_of_entry st etcd_url x = (Inr r, q)"
    using comprehension_stops[of pre' "conf_of_entry st etcd_url", OF that(3) cbad, of post']
      comprehension_all_Inr[of _ "service_of_entry st etcd_url", OF that(1)] that(2) nohit
    by (simp add: info_def compute_result_def)
  from one two three show ?thesis by blast
qed

theorem info_malformed_request_witness:
  "info example_store ''http://etcd'' (Some [RStr ''mongo'', RInt 5, RStr ''redis'']) None
       None False Map.empty
     = (Inl ValueError, Map.empty, [''http://etcd/v2/keys/backends/mongo''])
   \<and> info example_store ''http://etcd'' (Some [RStr ''mongo''])
       (Some [RTuple [''app'', ''services''], RNone, RStr ''web'']) None False Map.empty
     = (Inl ValueError, Map.empty,
        [''http://etcd/v2/keys/backends/mongo'',
         ''http://etcd/v2/keys/project-conf/app?recursive=true''])"
proof -
  have nohit: "\<not> cache_hit None False Map.empty"
    by (simp add: cache_hit_def truthy_str_def)
  have b1: "malformed_request (RInt 5)" and b2: "malformed_request RNone"
    by (simp_all add: malformed_request_def)
  have ca: "conf_of_entry example_store ''http://etcd'' (RTuple [''app'', ''services'']) =
      (Inr (Some [(''services'', PDict [(''a'', PDict [(''b'', PDict [(''c'', PStr ''v'')])])])]),
       [''http://etcd/v2/keys/project-conf/app?recursive=true''])"
    by (simp add: conf_of_entry_def conf_app)
  from info_malformed_request[OF nohit b1, of "Some [RStr ''mongo'', RInt 5, RStr ''redis'']"
      None example_store "''http://etcd''" "[RStr ''mongo'']" "[RStr ''redis'']" "[]" "[]"]
  have first: "info example_store ''http://etcd'' (Some [RStr ''mongo'', RInt 5, RStr ''redis''])
       None None False Map.empty
     = (Inl ValueError, Map.empty, [''http://etcd/v2/keys/backends/mongo''])"
    by (simp add: or_empty_def service_mongo)
  from info_malformed_request[OF nohit b2, of "Some [RStr ''mongo'']"
      "Some [RTuple [''app'', ''services''], RNone, RStr ''web'']" example_store "''http://etcd''"
      "[]" "[]" "[RTuple [''app'', ''services'']]" "[RStr ''web'']"]
  have second: "info example_store ''http://etcd'' (Some [RStr ''mongo''])
       (Some [RTuple [''app'', ''services''], RNone, RStr ''web'']) None False Map.empty
     = (Inl ValueError, Map.empty,
        [''http://etcd/v2/keys/backends/mongo'',
         ''http://etcd/v2/keys/project-conf/app?recursive=true''])"
    by (simp add: or_empty_def service_mongo ca)
  from first second show ?thesis by simp
qed

text \<open>
  Claim C5 as stated fails twice. The request for \<^verbatim>\<open>mongo\<close> is made before the
  malformed entry after it is looked at; and a call that is answered from the cache
  returns the cached bundle without looking at the entries at all.
\<close>

theorem info_malformed_request_counterexample:
  "info example_store ''http://etcd'' (Some [RStr ''mongo'', RInt 5]) None None False Map.empty
     = (Inl ValueError, Map.empty, [''http://etcd/v2/keys/backends/mongo''])
   \<and> info example_store ''http://etcd'' (Some [RStr ''mongo'', RInt 5]) None (Some ''boot'')
       False [''boot'' \<mapsto> [(''services'', PDict [])]]
     = (Inr [(''services'', PDict [])], [''boot'' \<mapsto> [(''services'', PDict [])]], [])"
  by (simp add: info_def truthy_str_def compute_result_def or_empty_def service_mongo
        service_of_entry_def[of _ _ "RInt 5"])

text \<open>
  Claim C8: when \<^verbatim>\<open>service_names\<close> holds one entry that resolves to a mapping and one
  that resolves to \<^verbatim>\<open>None\<close>, in either order, a call that computes its bundle (no
  cache hit, configurations that raise nothing and do not use the key \<^verbatim>\<open>services\<close>)
  raises nothing, and the services of its bundle have exactly one key: the alias of the
  entry that resolved.
\<close>

theorem info_drops_absent:
  assumes "\<not> cache_hit cache_key force_refresh cached_result"
    and "service_of_entry st etcd_url present = (Inr (Some d), q1)"
    and "service_of_entry st etcd_url absent = (Inr None, q2)"
    and "service_names = Some [present, absent] \<or> service_names = Some [absent, present]"
    and "comprehension (conf_of_entry st etcd_url) (or_empty conf_names) = (Inr cs, q3)"
    and "\<forall>c. Some c \<in> set cs \<longrightarrow> ''services'' \<notin> fst ` set c"
  shows "\<exists>bundle cached_result' reqs name alias replicas.
           info st etcd_url service_names conf_names cache_key force_refresh cached_result
             = (Inr bundle, cached_result', reqs) \<and>
           build_tuple present = Inr (name, alias) \<and>
           map_of bundle ''services'' = Some (PDict [(alias, PDict replicas)])"
proof -
  from assms(2) obtain name al where bt: "build_tuple present = Inr (name, al)"
    and gs: "get_service st etcd_url name al = (Inr (Some d), q1)"
    by (auto simp: service_of_entry_def split: sum.splits)
  from get_service_Some[OF gs] obtain replicas where d: "d = [(al, PDict replicas)]" ..
  have "\<exists>q. comprehension (service_of_entry st etcd_url) (or_empty service_names) = (Inr [Some d, None], q)
      \<or> comprehension (service_of_entry st etcd_url) (or_empty service_names) = (Inr [None, Some d], q)"
    using assms(2,3,4) by (auto simp: or_empty_def)
  then obtain ss q where ss: "comprehension (service_of_entry st etcd_url) (or_empty service_names) = (Inr ss, q)"
    and f: "map the (filter truthy ss) = [d]"
    by (auto simp: truthy_def d)
  have md: "merge_dicts [d] = d" by (simp add: merge_dicts_def py_update_def d)
  from compute_result_Inr[OF ss assms(5)] info_no_hit[OF assms(1)]
  obtain cached_result' where i: "info st etcd_url service_names conf_names cache_key force_refresh cached_result
      = (Inr (py_update [(''services'', PDict d)]
                   (merge_dicts (map the (filter truthy cs)))), cached_result', q @ q3)"
    unfolding f md by blast
  have "map_of (py_update [(''services'', PDict d)] (merge_dicts (map the (filter truthy cs)))) ''services''
      = Some (PDict d)"
    using map_of_py_update_other[OF no_services_key[OF assms(6)]] by simp
  with i bt show ?thesis unfolding d by blast
qed

theorem info_drops_absent_witness:
  "\<exists>bundle cached_result' reqs name alias replicas.
     info example_store ''http://etcd'' (Some [RStr ''redis'', RStr ''mongo'']) None None False
         Map.empty
       = (Inr bundle, cached_result', reqs) \<and>
     build_tuple (RStr ''mongo'') = Inr (name, alias) \<and>
     map_of bundle ''services'' = Some (PDict [(alias, PDict replicas)])"
  by (rule info_drops_absent[where absent = "RStr ''redis''" and cs = "[]" and ?q3.0 = "[]",
        OF _ service_mongo service_redis])
     (simp_all add: cache_hit_def truthy_str_def or_empty_def)



end
